theory Spec2Isabelle
  imports Main
begin

section \<open>Tic Tac Toe: the state of \<open>App\<close> and its handlers\<close>

text \<open>
  The component \<open>App\<close> of \<open>src/tic_tac_toe_frontend/src/App.js\<close> keeps the game in six
  state variables and changes them in two handlers, \<open>handleSquareClick\<close> and
  \<open>handleReset\<close>; \<open>calculateWinner\<close> is a pure helper. A seventh variable, \<open>theme\<close>,
  is read and written by \<open>toggleTheme\<close> and the effect only, and no game handler touches
  it; it is left out of the model.

  A handler reads the values of the render it was created in and queues one constant per
  setter; every click is processed to completion before the next one. So a handler is a
  function from the state before the event to the state after it.
\<close>

subsection \<open>JavaScript values\<close>

text \<open>
  Cells are JavaScript strings: \<open>""\<close>, \<open>"X"\<close> or \<open>"O"\<close>. Reading an array at an index it
  does not have gives \<open>undefined\<close>; \<open>null\<close> and \<open>undefined\<close> are both \<open>None\<close> here.
\<close>

definition js_index :: "'a list \<Rightarrow> nat \<Rightarrow> 'a option" where
  "js_index xs i = (if i < length xs then Some (xs ! i) else None)"

text \<open>Truthiness of a value that is a string, \<open>null\<close> or \<open>undefined\<close>: only a non-empty
  string is truthy.\<close>

definition truthy :: "string option \<Rightarrow> bool" where
  "truthy v = (case v of None \<Rightarrow> False | Some str \<Rightarrow> str \<noteq> [])"

subsection \<open>State\<close>

record game_state =
  board :: "string list"
  isXNext :: bool
  winner :: "string option"
  winningLine :: "nat list"
  isTie :: bool
  lastMove :: "nat option"

text \<open>The arguments of the six \<open>useState\<close> calls (lines 17 to 27).\<close>

definition initial_state :: game_state where
  "initial_state =
     \<lparr>board = replicate 9 [], isXNext = True, winner = None,
      winningLine = [], isTie = False, lastMove = None\<rparr>"

subsection \<open>calculateWinner\<close>

text \<open>The object \<open>{winner, line}\<close> that \<open>calculateWinner\<close> returns; the caller binds it to
  \<open>res\<close>.\<close>

record result =
  res_winner :: "string option"
  res_line :: "nat list"

definition lines :: "nat list list" where
  "lines =
     [[0, 1, 2], [3, 4, 5], [6, 7, 8],
      [0, 3, 6], [1, 4, 7], [2, 5, 8],
      [0, 4, 8], [2, 4, 6]]"

text \<open>
  The \<open>for (let line of lines)\<close> loop with its early return. \<open>const [a, b, c] = line\<close>
  binds the first three elements. Each of the eight lines has three; on a shorter array
  \<open>b\<close> or \<open>c\<close> would be \<open>undefined\<close>, \<open>squares[undefined]\<close> is \<open>undefined\<close>, which is
  not strictly equal to the truthy string \<open>squares[a]\<close>, and the loop goes on.
\<close>

fun scan_lines :: "string list \<Rightarrow> nat list list \<Rightarrow> result" where
  "scan_lines squares [] = \<lparr>res_winner = None, res_line = []\<rparr>"
| "scan_lines squares (ln # rest) =
     (case ln of
        a # b # c # _ \<Rightarrow>
          if truthy (js_index squares a)
             \<and> js_index squares a = js_index squares b
             \<and> js_index squares a = js_index squares c
          then \<lparr>res_winner = js_index squares a, res_line = ln\<rparr>
          else scan_lines squares rest
      | _ \<Rightarrow> scan_lines squares rest)"

definition calculateWinner :: "string list \<Rightarrow> result" where
  "calculateWinner squares = scan_lines squares lines"

subsection \<open>handleSquareClick and handleReset\<close>

text \<open>
  Line 39 returns when \<open>board[idx] !== ""\<close>, which also holds when \<open>idx\<close> is not an index
  of the board (\<open>undefined !== ""\<close>), or when \<open>winner\<close> is truthy. Otherwise the cell is
  written in a copy of the board, the three setters of lines 42 to 44 are called, and the
  branch of lines 48 to 59 calls the setters it names and no other: the tie branch does
  not call \<open>setWinningLine\<close>.
\<close>

definition handleSquareClick :: "game_state \<Rightarrow> nat \<Rightarrow> game_state" where
  "handleSquareClick s idx =
     (if js_index (board s) idx \<noteq> Some [] \<or> truthy (winner s) then s
      else
        let nextBoard = (board s)[idx := (if isXNext s then ''X'' else ''O'')];
            s1 = s\<lparr>board := nextBoard, isXNext := \<not> isXNext s, lastMove := Some idx\<rparr>;
            res = calculateWinner nextBoard
        in if truthy (res_winner res)
           then s1\<lparr>winner := res_winner res, winningLine := res_line res, isTie := False\<rparr>
           else if list_all (\<lambda>cell. cell \<noteq> []) nextBoard
           then s1\<lparr>isTie := True, winner := None\<rparr>
           else s1\<lparr>winner := None, winningLine := [], isTie := False\<rparr>)"

definition handleReset :: "game_state \<Rightarrow> game_state" where
  "handleReset s =
     s\<lparr>board := replicate 9 [], isXNext := True, winner := None,
       winningLine := [], isTie := False, lastMove := None\<rparr>"

subsection \<open>Events and runs\<close>

text \<open>The two events that reach the game state: a click on a square (the buttons are
  created for \<open>idx = 0..8\<close>, the handler itself takes any index) and a click on Reset.
  A reachable state is \<open>run es\<close> for a list of events \<open>es\<close>.\<close>

datatype event = SquareClick nat | ResetClick

fun dispatch :: "game_state \<Rightarrow> event \<Rightarrow> game_state" where
  "dispatch s (SquareClick idx) = handleSquareClick s idx"
| "dispatch s ResetClick = handleReset s"

definition run :: "event list \<Rightarrow> game_state" where
  "run es = foldl dispatch initial_state es"

subsection \<open>Derived notions\<close>

text \<open>The mark that the next accepted click writes (line 41) and the status line shows
  (line 144).\<close>

definition currentTurn :: "game_state \<Rightarrow> string" where
  "currentTurn s = (if isXNext s then ''X'' else ''O'')"

text \<open>The outcome as the status message reads it from the stored variables (lines 138
  to 145): a truthy \<open>winner\<close> first, then \<open>isTie\<close>, else the game goes on.\<close>

datatype outcome = InProgress | Win string "nat list" | Tie

definition outcome_of :: "game_state \<Rightarrow> outcome" where
  "outcome_of s =
     (case winner s of
        Some w \<Rightarrow> if w \<noteq> [] then Win w (winningLine s)
                  else if isTie s then Tie else InProgress
      | None \<Rightarrow> if isTie s then Tie else InProgress)"

text \<open>The outcome of a board as lines 46 to 59 derive it: \<open>calculateWinner\<close>, then the
  \<open>every\<close> test.\<close>

definition evaluate :: "string list \<Rightarrow> outcome" where
  "evaluate b =
     (let res = calculateWinner b
      in case res_winner res of
           Some w \<Rightarrow> if w \<noteq> [] then Win w (res_line res)
                     else if list_all (\<lambda>cell. cell \<noteq> []) b then Tie else InProgress
         | None \<Rightarrow> if list_all (\<lambda>cell. cell \<noteq> []) b then Tie else InProgress)"

text \<open>A placement is accepted when the guard of line 39 lets it through.\<close>

definition accepted :: "game_state \<Rightarrow> nat \<Rightarrow> bool" where
  "accepted s idx = (js_index (board s) idx = Some [] \<and> \<not> truthy (winner s))"

text \<open>The specification's condition on a triple of indices: the three cells are cells of
  the board, equal and not empty.\<close>

definition triple_matches :: "string list \<Rightarrow> nat list \<Rightarrow> bool" where
  "triple_matches squares t =
     (length t = 3
      \<and> list_all (\<lambda>k. k < length squares \<and> squares ! k \<noteq> [] \<and> squares ! k = squares ! hd t) t)"

text \<open>The invariant of the runs: nine cells, each \<open>""\<close>, \<open>"X"\<close> or \<open>"O"\<close>, and the three
  outcome variables hold what lines 46 to 59 compute from the board.\<close>

definition consistent :: "game_state \<Rightarrow> bool" where
  "consistent s =
     (length (board s) = 9
      \<and> list_all (\<lambda>cell. cell = [] \<or> cell = ''X'' \<or> cell = ''O'') (board s)
      \<and> winner s = res_winner (calculateWinner (board s))
      \<and> winningLine s = res_line (calculateWinner (board s))
      \<and> isTie s = (res_winner (calculateWinner (board s)) = None
                  \<and> list_all (\<lambda>cell. cell \<noteq> []) (board s)))"

subsection \<open>Example boards and runs\<close>

text \<open>A board that no game produces: the bottom row and the left column are both full
  of \<open>X\<close>.\<close>

definition two_lines_board :: "string list" where
  "two_lines_board = [''X'', ''O'', ''X'', ''X'', ''O'', ''O'', ''X'', ''X'', ''X'']"

text \<open>\<open>X\<close> plays 0 and 1, \<open>O\<close> plays 3 and 4; \<open>X\<close> is to move and wins at 2.\<close>

definition before_win :: "event list" where
  "before_win = [SquareClick 0, SquareClick 3, SquareClick 1, SquareClick 4]"

text \<open>Eight moves with no line completed; cell 7 is the last empty one and filling it
  ties the game.\<close>

definition before_tie :: "event list" where
  "before_tie =
     [SquareClick 0, SquareClick 1, SquareClick 2, SquareClick 4,
      SquareClick 3, SquareClick 6, SquareClick 5, SquareClick 8]"

section \<open>Properties\<close>

subsection \<open>The scan of the eight lines\<close>

lemma lines_length: "length lines = 8"
  by (simp add: lines_def)

lemma lines_triples: "\<forall>l\<in>set lines. length l = 3"
  by (simp add: lines_def)

lemma triple_shape: "length l = 3 \<Longrightarrow> \<exists>a b c. l = [a, b, c]"
  by (auto simp: length_Suc_conv numeral_3_eq_3)

text \<open>On a triple, the condition of lines 90 to 92 is the specification's.\<close>

lemma triple_cond:
  "triple_matches sq [a, b, c] \<longleftrightarrow>
     truthy (js_index sq a) \<and> js_index sq a = js_index sq b \<and> js_index sq a = js_index sq c"
  by (auto simp: triple_matches_def truthy_def js_index_def)

lemma scan_lines_step:
  "scan_lines sq ([a, b, c] # rest) =
     (if triple_matches sq [a, b, c]
      then \<lparr>res_winner = js_index sq a, res_line = [a, b, c]\<rparr>
      else scan_lines sq rest)"
  by (simp add: triple_cond)

lemma scan_lines_none:
  "\<forall>l\<in>set ls. length l = 3 \<and> \<not> triple_matches sq l \<Longrightarrow>
     scan_lines sq ls = \<lparr>res_winner = None, res_line = []\<rparr>"
proof (induction ls)
  case Nil
  show ?case by simp
next
  case (Cons l ls)
  from Cons.prems have "length l = 3" by simp
  then obtain a b c where l: "l = [a, b, c]" using triple_shape by blast
  from Cons.prems l have nm: "\<not> triple_matches sq [a, b, c]" by simp
  from Cons have "scan_lines sq ls = \<lparr>res_winner = None, res_line = []\<rparr>" by simp
  with nm show ?case by (simp only: l scan_lines_step) simp
qed

lemma scan_lines_first:
  assumes "i < length ls" and "triple_matches sq (ls ! i)"
    and "\<forall>j<i. \<not> triple_matches sq (ls ! j)" and "\<forall>l\<in>set ls. length l = 3"
  shows "scan_lines sq ls = \<lparr>res_winner = Some (sq ! hd (ls ! i)), res_line = ls ! i\<rparr>"
  using assms
proof (induction ls arbitrary: i)
  case Nil
  then show ?case by simp
next
  case (Cons l ls)
  from Cons.prems have "length l = 3" by simp
  then obtain a b c where l: "l = [a, b, c]" using triple_shape by blast
  show ?case
  proof (cases i)
    case 0
    with Cons.prems l have m: "triple_matches sq [a, b, c]" by simp
    then have "js_index sq a = Some (sq ! a)"
      by (simp add: triple_matches_def js_index_def)
    with m 0 l show ?thesis by (simp only: scan_lines_step) simp
  next
    case (Suc k)
    with Cons.prems have nm: "\<not> triple_matches sq l" by fastforce
    from Suc Cons.prems
    have "scan_lines sq ls = \<lparr>res_winner = Some (sq ! hd (ls ! k)), res_line = ls ! k\<rparr>"
      by (intro Cons.IH) auto
    with nm l Suc show ?thesis by (simp only: scan_lines_step) simp
  qed
qed

text \<open>
  C1. On every board on which at least one of the eight triples has three equal,
  non-empty cells, \<open>calculateWinner\<close> returns the mark of, and as line, the first
  matching triple in the order of \<open>lines\<close>: the triple at the least index \<open>i\<close> that
  matches. Boards on which several triples match are covered; the board need not even
  have nine cells.
\<close>

theorem calculateWinner_first_match:
  assumes "\<exists>l\<in>set lines. triple_matches squares l"
  shows "\<exists>i<length lines.
           triple_matches squares (lines ! i)
           \<and> (\<forall>j<i. \<not> triple_matches squares (lines ! j))
           \<and> squares ! hd (lines ! i) \<noteq> []
           \<and> calculateWinner squares =
               \<lparr>res_winner = Some (squares ! hd (lines ! i)), res_line = lines ! i\<rparr>"
proof -
  define P where "P = (\<lambda>i. i < length lines \<and> triple_matches squares (lines ! i))"
  from assms have "\<exists>i. P i" by (auto simp: P_def in_set_conv_nth)
  then obtain i where i: "P i" and least: "\<forall>j<i. \<not> P j"
    using exists_least_iff [of P] by blast
  from i have il: "i < length lines" and m: "triple_matches squares (lines ! i)"
    by (simp_all add: P_def)
  from least il have nm: "\<forall>j<i. \<not> triple_matches squares (lines ! j)"
    by (auto simp: P_def)
  from il m have "length (lines ! i) = 3" by (simp add: triple_matches_def)
  then obtain a b c where abc: "lines ! i = [a, b, c]" using triple_shape by blast
  with m have ne: "squares ! hd (lines ! i) \<noteq> []" by (simp add: triple_matches_def)
  have "calculateWinner squares =
          \<lparr>res_winner = Some (squares ! hd (lines ! i)), res_line = lines ! i\<rparr>"
    unfolding calculateWinner_def using il m nm lines_triples by (rule scan_lines_first)
  with il m nm ne show ?thesis by blast
qed

theorem calculateWinner_first_match_witness:
  "triple_matches two_lines_board [6, 7, 8] \<and> triple_matches two_lines_board [0, 3, 6]
   \<and> calculateWinner two_lines_board = \<lparr>res_winner = Some ''X'', res_line = [6, 7, 8]\<rparr>"
proof -
  let ?B = two_lines_board
  have m2: "triple_matches ?B (lines ! 2)"
    by (simp add: lines_def triple_matches_def two_lines_board_def)
  have m3: "triple_matches ?B [0, 3, 6]"
    by (simp add: triple_matches_def two_lines_board_def)
  have n0: "\<not> triple_matches ?B (lines ! 0)"
    by (simp add: lines_def triple_matches_def two_lines_board_def)
  have n1: "\<not> triple_matches ?B (lines ! 1)"
    by (simp add: lines_def triple_matches_def two_lines_board_def)
  have "\<exists>l\<in>set lines. triple_matches ?B l"
    by (simp add: lines_def triple_matches_def two_lines_board_def)
  from calculateWinner_first_match [OF this]
  obtain i where i: "i < length lines" "triple_matches ?B (lines ! i)"
      "\<forall>j<i. \<not> triple_matches ?B (lines ! j)"
      "calculateWinner ?B = \<lparr>res_winner = Some (?B ! hd (lines ! i)), res_line = lines ! i\<rparr>"
    by blast
  from i(3) m2 have "\<not> 2 < i" by blast
  then have "i = 0 \<or> i = 1 \<or> i = 2" by arith
  with i(2) n0 n1 have "i = 2" by auto
  with i(4) have "calculateWinner ?B = \<lparr>res_winner = Some ''X'', res_line = [6, 7, 8]\<rparr>"
    by (simp add: lines_def two_lines_board_def)
  with m2 m3 show ?thesis by (simp add: lines_def)
qed

subsection \<open>When the scan finds nothing\<close>

lemma scan_lines_falsy:
  "\<not> truthy (res_winner (scan_lines sq ls)) \<Longrightarrow>
     scan_lines sq ls = \<lparr>res_winner = None, res_line = []\<rparr>"
  by (induction ls) (auto split: list.splits if_splits)

lemma calculateWinner_falsy:
  "\<not> truthy (res_winner (calculateWinner sq)) \<Longrightarrow>
     calculateWinner sq = \<lparr>res_winner = None, res_line = []\<rparr>"
  unfolding calculateWinner_def by (rule scan_lines_falsy)

lemma calculateWinner_truthy:
  "truthy (res_winner (calculateWinner sq)) \<longleftrightarrow> res_winner (calculateWinner sq) \<noteq> None"
  using calculateWinner_falsy [of sq] by (auto simp: truthy_def split: option.splits)

lemma calculateWinner_no_match:
  "\<forall>l\<in>set lines. \<not> triple_matches sq l \<Longrightarrow>
     calculateWinner sq = \<lparr>res_winner = None, res_line = []\<rparr>"
  unfolding calculateWinner_def using lines_triples by (intro scan_lines_none) blast

lemma calculateWinner_empty_board:
  "calculateWinner (replicate 9 []) = \<lparr>res_winner = None, res_line = []\<rparr>"
  by (rule calculateWinner_no_match) (simp add: lines_def triple_matches_def)

subsection \<open>What a click does\<close>

lemma handleSquareClick_rejected:
  "\<not> accepted s idx \<Longrightarrow> handleSquareClick s idx = s"
  by (auto simp: handleSquareClick_def accepted_def)

lemma handleSquareClick_board:
  "accepted s idx \<Longrightarrow>
     board (handleSquareClick s idx) = (board s)[idx := currentTurn s]"
  by (simp add: handleSquareClick_def accepted_def currentTurn_def Let_def)

lemma handleSquareClick_isXNext:
  "accepted s idx \<Longrightarrow> isXNext (handleSquareClick s idx) = (\<not> isXNext s)"
  by (simp add: handleSquareClick_def accepted_def Let_def)

lemma handleSquareClick_lastMove:
  "accepted s idx \<Longrightarrow> lastMove (handleSquareClick s idx) = Some idx"
  by (simp add: handleSquareClick_def accepted_def Let_def)

lemma handleSquareClick_winner:
  "accepted s idx \<Longrightarrow>
     winner (handleSquareClick s idx)
       = res_winner (calculateWinner (board (handleSquareClick s idx)))"
  using calculateWinner_falsy [of "(board s)[idx := (if isXNext s then ''X'' else ''O'')]"]
  by (auto simp: handleSquareClick_def accepted_def Let_def)

lemma handleSquareClick_isTie:
  "accepted s idx \<Longrightarrow>
     isTie (handleSquareClick s idx)
       = (res_winner (calculateWinner (board (handleSquareClick s idx))) = None
          \<and> list_all (\<lambda>cell. cell \<noteq> []) (board (handleSquareClick s idx)))"
  by (auto simp: handleSquareClick_def accepted_def Let_def calculateWinner_truthy)

lemma handleSquareClick_winningLine:
  "accepted s idx \<Longrightarrow> winningLine s = [] \<Longrightarrow>
     winningLine (handleSquareClick s idx)
       = res_line (calculateWinner (board (handleSquareClick s idx)))"
  using calculateWinner_falsy [of "(board s)[idx := (if isXNext s then ''X'' else ''O'')]"]
  by (auto simp: handleSquareClick_def accepted_def Let_def)

lemma full_board_rejects:
  "list_all (\<lambda>cell. cell \<noteq> []) (board s) \<Longrightarrow> handleSquareClick s idx = s"
  by (auto simp: handleSquareClick_def js_index_def list_all_length)

subsection \<open>The invariant of the runs\<close>

lemma consistent_no_winner_line:
  "consistent s \<Longrightarrow> \<not> truthy (winner s) \<Longrightarrow> winningLine s = []"
  using calculateWinner_falsy [of "board s"] by (simp add: consistent_def)

lemma consistent_initial: "consistent initial_state"
  by (simp add: consistent_def initial_state_def calculateWinner_empty_board list_all_iff)

lemma consistent_handleReset: "consistent (handleReset s)"
  by (simp add: consistent_def handleReset_def calculateWinner_empty_board list_all_iff)

lemma cells_update:
  "list_all (\<lambda>cell. cell = [] \<or> cell = ''X'' \<or> cell = ''O'') b \<Longrightarrow>
   list_all (\<lambda>cell. cell = [] \<or> cell = ''X'' \<or> cell = ''O'') (b[idx := (if x then ''X'' else ''O'')])"
  by (auto simp: list_all_iff dest!: set_update_subset_insert [THEN subsetD])

lemma consistent_handleSquareClick:
  assumes "consistent s"
  shows "consistent (handleSquareClick s idx)"
proof (cases "accepted s idx")
  case False
  with assms show ?thesis by (simp add: handleSquareClick_rejected)
next
  case True
  from True assms have "winningLine s = []"
    by (simp add: consistent_no_winner_line accepted_def)
  with True have "winningLine (handleSquareClick s idx)
       = res_line (calculateWinner (board (handleSquareClick s idx)))"
    by (rule handleSquareClick_winningLine)
  moreover from assms have "length (board (handleSquareClick s idx)) = 9"
    by (simp add: handleSquareClick_board [OF True] consistent_def)
  moreover from assms
  have "list_all (\<lambda>cell. cell = [] \<or> cell = ''X'' \<or> cell = ''O'') (board (handleSquareClick s idx))"
    by (simp add: handleSquareClick_board [OF True] consistent_def currentTurn_def cells_update)
  ultimately show ?thesis
    unfolding consistent_def [of "handleSquareClick s idx"]
    using handleSquareClick_winner [OF True] handleSquareClick_isTie [OF True] by blast
qed

lemma consistent_dispatch: "consistent s \<Longrightarrow> consistent (dispatch s e)"
  by (cases e) (simp_all add: consistent_handleSquareClick consistent_handleReset)

lemma consistent_foldl: "consistent s \<Longrightarrow> consistent (foldl dispatch s es)"
  by (induction es arbitrary: s) (simp_all add: consistent_dispatch)

lemma consistent_run: "consistent (run es)"
  unfolding run_def using consistent_initial by (rule consistent_foldl)

lemma calculateWinner_not_empty: "res_winner (calculateWinner sq) \<noteq> Some []"
  using calculateWinner_falsy [of sq] by (auto simp: truthy_def)

lemma consistent_outcome: "consistent s \<Longrightarrow> outcome_of s = evaluate (board s)"
  by (simp add: consistent_def outcome_of_def evaluate_def Let_def calculateWinner_not_empty
      split: option.splits)

subsection \<open>The example runs\<close>

lemma run_first_move:
  "handleSquareClick initial_state 0 =
     \<lparr>board = [''X'', [], [], [], [], [], [], [], []], isXNext = False, winner = None,
      winningLine = [], isTie = False, lastMove = Some 0\<rparr>"
  by code_simp

lemma run_before_win:
  "run before_win =
     \<lparr>board = [''X'', ''X'', [], ''O'', ''O'', [], [], [], []], isXNext = True, winner = None,
      winningLine = [], isTie = False, lastMove = Some 4\<rparr>"
  by code_simp

lemma run_win:
  "handleSquareClick (run before_win) 2 =
     \<lparr>board = [''X'', ''X'', ''X'', ''O'', ''O'', [], [], [], []], isXNext = False,
      winner = Some ''X'', winningLine = [0, 1, 2], isTie = False, lastMove = Some 2\<rparr>"
  unfolding run_before_win by code_simp

lemma run_before_tie:
  "run before_tie =
     \<lparr>board = [''X'', ''O'', ''X'', ''X'', ''O'', ''X'', ''O'', [], ''O''], isXNext = True,
      winner = None, winningLine = [], isTie = False, lastMove = Some 8\<rparr>"
  by code_simp

lemma run_tie:
  "handleSquareClick (run before_tie) 7 =
     \<lparr>board = [''X'', ''O'', ''X'', ''X'', ''O'', ''X'', ''O'', ''X'', ''O''], isXNext = False,
      winner = None, winningLine = [], isTie = True, lastMove = Some 7\<rparr>"
  unfolding run_before_tie by code_simp

lemma run_snoc: "run (es @ [e]) = dispatch (run es) e"
  by (simp add: run_def)

lemma run_Nil: "run [] = initial_state"
  by (simp add: run_def)

lemma run_win_run: "run (before_win @ [SquareClick 2]) = handleSquareClick (run before_win) 2"
  by (simp add: run_snoc)

lemma run_tie_run: "run (before_tie @ [SquareClick 7]) = handleSquareClick (run before_tie) 7"
  by (simp add: run_snoc)

lemma outcome_InProgress:
  "outcome_of s = InProgress \<longleftrightarrow> \<not> truthy (winner s) \<and> \<not> isTie s"
  by (simp add: outcome_of_def truthy_def split: option.splits)

lemma accepted_iff:
  "js_index (board s) idx = Some [] \<Longrightarrow> outcome_of s = InProgress \<Longrightarrow> accepted s idx"
  by (simp add: accepted_def outcome_InProgress)


lemma outcome_run_before_win: "outcome_of (run before_win) = InProgress"
  by (simp add: run_before_win outcome_of_def)

lemma outcome_run_win: "outcome_of (handleSquareClick (run before_win) 2) = Win ''X'' [0, 1, 2]"
  by (simp add: run_win outcome_of_def)

lemma outcome_run_before_tie: "outcome_of (run before_tie) = InProgress"
  by (simp add: run_before_tie outcome_of_def)

lemma outcome_run_tie: "outcome_of (handleSquareClick (run before_tie) 7) = Tie"
  by (simp add: run_tie outcome_of_def)

subsection \<open>The turn\<close>

text \<open>
  C2, as amended. Every accepted placement (the cell at \<open>idx\<close> is empty and the outcome
  before the call is InProgress) flips \<open>isXNext\<close>, and with it the mark of the current
  turn, whatever the outcome after the call is: line 43 calls \<open>setIsXNext(!isXNext)\<close>
  before the outcome is computed, and no branch of lines 48 to 59 sets it back.
\<close>

theorem place_flips_turn:
  assumes "js_index (board s) idx = Some []" and "outcome_of s = InProgress"
  shows "isXNext (handleSquareClick s idx) = (\<not> isXNext s)
         \<and> currentTurn (handleSquareClick s idx) = (if currentTurn s = ''X'' then ''O'' else ''X'')"
  using assms by (simp add: handleSquareClick_isXNext accepted_iff currentTurn_def)

theorem place_flips_turn_witness:
  "js_index (board (run before_win)) 2 = Some []
   \<and> outcome_of (run before_win) = InProgress
   \<and> outcome_of (handleSquareClick (run before_win) 2) = Win ''X'' [0, 1, 2]
   \<and> isXNext (run before_win)
   \<and> \<not> isXNext (handleSquareClick (run before_win) 2)
   \<and> js_index (board (run before_tie)) 7 = Some []
   \<and> outcome_of (run before_tie) = InProgress
   \<and> outcome_of (handleSquareClick (run before_tie) 7) = Tie
   \<and> isXNext (run before_tie)
   \<and> \<not> isXNext (handleSquareClick (run before_tie) 7)"
proof -
  have c: "js_index (board (run before_win)) 2 = Some []"
    by (simp add: run_before_win js_index_def)
  have x: "isXNext (run before_win)"
    by (simp add: run_before_win)
  from place_flips_turn [OF c outcome_run_before_win] x
  have w: "\<not> isXNext (handleSquareClick (run before_win) 2)" by simp
  have c': "js_index (board (run before_tie)) 7 = Some []"
    by (simp add: run_before_tie js_index_def)
  have x': "isXNext (run before_tie)"
    by (simp add: run_before_tie)
  from place_flips_turn [OF c' outcome_run_before_tie] x'
  have t: "\<not> isXNext (handleSquareClick (run before_tie) 7)" by simp
  from c x w c' x' t outcome_run_before_win outcome_run_win
    outcome_run_before_tie outcome_run_tie
  show ?thesis by simp
qed

text \<open>
  C2 as stated fails: the claim leaves the turn unchanged when the placement ends the
  game. After \<open>X\<close> at 0 and 1 and \<open>O\<close> at 3 and 4, the placement at 2 is accepted and
  wins for \<open>X\<close>, and the turn has passed from \<open>X\<close> to \<open>O\<close>.
\<close>

theorem turn_unchanged_at_end_counterexample:
  "accepted (run before_win) 2
   \<and> outcome_of (run before_win) = InProgress
   \<and> outcome_of (handleSquareClick (run before_win) 2) = Win ''X'' [0, 1, 2]
   \<and> currentTurn (run before_win) = ''X''
   \<and> currentTurn (handleSquareClick (run before_win) 2) = ''O''"
proof -
  have "accepted (run before_win) 2"
    by (simp add: run_before_win accepted_def js_index_def truthy_def)
  moreover have "currentTurn (run before_win) = ''X''"
    by (simp add: run_before_win currentTurn_def)
  moreover have "currentTurn (handleSquareClick (run before_win) 2) = ''O''"
    by (simp add: run_win currentTurn_def)
  ultimately show ?thesis
    using outcome_run_before_win outcome_run_win by simp
qed

text \<open>
  C8. The initial turn is \<open>X\<close>, and every accepted placement (empty cell, outcome
  InProgress before the call) after which the outcome is still InProgress passes the turn
  to the other mark.
\<close>

theorem strict_alternation:
  "currentTurn initial_state = ''X''
   \<and> (js_index (board s) idx = Some [] \<and> outcome_of s = InProgress
        \<and> outcome_of (handleSquareClick s idx) = InProgress
      \<longrightarrow> currentTurn (handleSquareClick s idx) = (if currentTurn s = ''X'' then ''O'' else ''X''))"
  by (simp add: currentTurn_def initial_state_def handleSquareClick_isXNext accepted_iff)

theorem strict_alternation_witness:
  "js_index (board initial_state) 0 = Some [] \<and> outcome_of initial_state = InProgress
   \<and> outcome_of (handleSquareClick initial_state 0) = InProgress
   \<and> currentTurn initial_state = ''X''
   \<and> currentTurn (handleSquareClick initial_state 0) = ''O''"
proof -
  have a: "js_index (board initial_state) 0 = Some []"
    by (simp add: initial_state_def js_index_def)
  have b: "outcome_of initial_state = InProgress"
    by (simp add: initial_state_def outcome_of_def)
  have c: "outcome_of (handleSquareClick initial_state 0) = InProgress"
    by (simp add: run_first_move outcome_of_def)
  from strict_alternation [of initial_state 0] a b c
  have "currentTurn initial_state = ''X'' \<and> currentTurn (handleSquareClick initial_state 0) = ''O''"
    by simp
  with a b c show ?thesis by simp
qed

subsection \<open>Clicks that change nothing\<close>

text \<open>
  C4. In every state, a click on a cell of the board that is not empty returns the state
  as it was: board, turn, winner, winning line, tie flag and last move.
\<close>

theorem occupied_cell_noop:
  assumes "idx < length (board s)" and "board s ! idx \<noteq> []"
  shows "handleSquareClick s idx = s"
  using assms by (simp add: handleSquareClick_def js_index_def)

theorem occupied_cell_noop_witness:
  "(0::nat) < length (board (handleSquareClick initial_state 0))
   \<and> board (handleSquareClick initial_state 0) ! 0 \<noteq> []
   \<and> handleSquareClick (handleSquareClick initial_state 0) 0 = handleSquareClick initial_state 0"
proof -
  have a: "(0::nat) < length (board (handleSquareClick initial_state 0))"
    by (simp add: run_first_move)
  have b: "board (handleSquareClick initial_state 0) ! 0 \<noteq> []"
    by (simp add: run_first_move)
  from occupied_cell_noop [OF a b] a b show ?thesis by simp
qed

subsection \<open>Reset\<close>

text \<open>
  C6. From every state, reachable or not, \<open>handleReset\<close> gives the initial state and
  nothing of the old state is left: nine empty cells, the turn of \<open>X\<close>, outcome
  InProgress (no winner, no winning line, no tie) and no last move.
\<close>

theorem reset_initial:
  "handleReset s = initial_state
   \<and> board (handleReset s) = replicate 9 []
   \<and> currentTurn (handleReset s) = ''X''
   \<and> outcome_of (handleReset s) = InProgress
   \<and> winner (handleReset s) = None \<and> winningLine (handleReset s) = [] \<and> \<not> isTie (handleReset s)
   \<and> lastMove (handleReset s) = None"
  by (simp add: handleReset_def initial_state_def currentTurn_def outcome_of_def)

subsection \<open>The stored outcome\<close>

text \<open>
  C7. In every reachable state, that is after every list of clicks and resets, the three
  stored outcome variables are what \<open>calculateWinner\<close> and the \<open>every\<close> test give on the
  stored board, and the outcome read from them is \<open>evaluate\<close> of the board.
\<close>

theorem outcome_never_stale:
  "winner (run es) = res_winner (calculateWinner (board (run es)))
   \<and> winningLine (run es) = res_line (calculateWinner (board (run es)))
   \<and> isTie (run es) = (res_winner (calculateWinner (board (run es))) = None
                       \<and> list_all (\<lambda>cell. cell \<noteq> []) (board (run es)))
   \<and> outcome_of (run es) = evaluate (board (run es))"
  using consistent_run [of es] consistent_outcome [of "run es"]
  by (simp add: consistent_def)

text \<open>
  C3. Take any reachable state and any click on it, accepted clicks in particular. If
  no triple matches on the board after the click, the board has nine cells and the
  outcome read from the stored variables is Tie when no cell is empty and InProgress
  when some cell is.
\<close>

theorem place_outcome_without_match:
  assumes "\<forall>l\<in>set lines. \<not> triple_matches (board (handleSquareClick (run es) idx)) l"
  shows "length (board (handleSquareClick (run es) idx)) = 9
         \<and> (list_all (\<lambda>cell. cell \<noteq> []) (board (handleSquareClick (run es) idx))
              \<longrightarrow> outcome_of (handleSquareClick (run es) idx) = Tie)
         \<and> ((\<exists>cell\<in>set (board (handleSquareClick (run es) idx)). cell = [])
              \<longrightarrow> outcome_of (handleSquareClick (run es) idx) = InProgress)"
proof -
  let ?s = "handleSquareClick (run es) idx"
  have c: "consistent ?s"
    using consistent_run by (rule consistent_handleSquareClick)
  from assms have "calculateWinner (board ?s) = \<lparr>res_winner = None, res_line = []\<rparr>"
    by (rule calculateWinner_no_match)
  with c have "winner ?s = None" and "isTie ?s = list_all (\<lambda>cell. cell \<noteq> []) (board ?s)"
    and "length (board ?s) = 9"
    by (simp_all add: consistent_def)
  then show ?thesis
    by (auto simp: outcome_of_def list_all_iff)
qed

theorem place_outcome_without_match_witness:
  "accepted (run before_tie) 7
   \<and> \<not> (\<exists>l\<in>set lines. triple_matches (board (handleSquareClick (run before_tie) 7)) l)
   \<and> list_all (\<lambda>cell. cell \<noteq> []) (board (handleSquareClick (run before_tie) 7))
   \<and> outcome_of (handleSquareClick (run before_tie) 7) = Tie
   \<and> accepted (run []) 0
   \<and> \<not> (\<exists>l\<in>set lines. triple_matches (board (handleSquareClick (run []) 0)) l)
   \<and> (\<exists>cell\<in>set (board (handleSquareClick (run []) 0)). cell = [])
   \<and> outcome_of (handleSquareClick (run []) 0) = InProgress"
proof -
  have a1: "accepted (run before_tie) 7"
    by (simp add: run_before_tie accepted_def js_index_def truthy_def)
  have n1: "\<forall>l\<in>set lines. \<not> triple_matches (board (handleSquareClick (run before_tie) 7)) l"
    by (simp add: run_tie lines_def triple_matches_def)
  have f1: "list_all (\<lambda>cell. cell \<noteq> []) (board (handleSquareClick (run before_tie) 7))"
    by (simp add: run_tie)
  have a2: "accepted (run []) 0"
    by (simp add: run_Nil initial_state_def accepted_def js_index_def truthy_def)
  have n2: "\<forall>l\<in>set lines. \<not> triple_matches (board (handleSquareClick (run []) 0)) l"
    by (simp add: run_Nil run_first_move lines_def triple_matches_def)
  have f2: "\<exists>cell\<in>set (board (handleSquareClick (run []) 0)). cell = []"
    by (simp add: run_Nil run_first_move)
  from place_outcome_without_match [OF n1] f1
  have t: "outcome_of (handleSquareClick (run before_tie) 7) = Tie" by blast
  from place_outcome_without_match [OF n2] f2
  have p: "outcome_of (handleSquareClick (run []) 0) = InProgress" by blast
  from a1 n1 f1 t a2 n2 f2 p show ?thesis by blast
qed

text \<open>
  C10. In every reachable state a winner and the tie flag never hold together, and a
  non-empty winning line comes with a winner. So the stored variables give exactly one
  outcome: InProgress when there is neither winner nor tie, Tie when the flag is set, a
  win with the stored line when there is a winner.
\<close>

theorem win_tie_exclusive:
  "\<not> (winner (run es) \<noteq> None \<and> isTie (run es))
   \<and> (winningLine (run es) \<noteq> [] \<longrightarrow> winner (run es) \<noteq> None)
   \<and> (outcome_of (run es) = InProgress) = (winner (run es) = None \<and> \<not> isTie (run es))
   \<and> (outcome_of (run es) = Tie) = (winner (run es) = None \<and> isTie (run es))
   \<and> (\<exists>w. outcome_of (run es) = Win w (winningLine (run es)))
       = (winner (run es) \<noteq> None \<and> \<not> isTie (run es))"
proof -
  let ?s = "run es"
  have c: "consistent ?s" by (rule consistent_run)
  then have excl: "\<not> (winner ?s \<noteq> None \<and> isTie ?s)"
    by (auto simp: consistent_def)
  from c have ne: "winner ?s \<noteq> Some []"
    by (simp add: consistent_def calculateWinner_not_empty)
  have line: "winningLine ?s \<noteq> [] \<longrightarrow> winner ?s \<noteq> None"
  proof (cases "winner ?s")
    case None
    then have "\<not> truthy (winner ?s)" by (simp add: truthy_def)
    with c have "winningLine ?s = []" by (rule consistent_no_winner_line)
    then show ?thesis by simp
  next
    case (Some w)
    then show ?thesis by simp
  qed
  from excl ne line show ?thesis
    by (cases "winner ?s") (auto simp: outcome_of_def)
qed

theorem win_tie_exclusive_witness:
  "winningLine (run (before_win @ [SquareClick 2])) = [0, 1, 2]
   \<and> winner (run (before_win @ [SquareClick 2])) = Some ''X''
   \<and> \<not> isTie (run (before_win @ [SquareClick 2]))"
proof -
  have l: "winningLine (run (before_win @ [SquareClick 2])) = [0, 1, 2]"
    by (simp add: run_win_run run_win)
  have w: "winner (run (before_win @ [SquareClick 2])) = Some ''X''"
    by (simp add: run_win_run run_win)
  from win_tie_exclusive [of "before_win @ [SquareClick 2]"] w
  have "\<not> isTie (run (before_win @ [SquareClick 2]))" by simp
  with l w show ?thesis by simp
qed

subsection \<open>Ended games\<close>

text \<open>
  C9. In every reachable state with \<open>isTie\<close> set, the board has nine cells and none is
  empty, so that a click on any index returns the state as it was, although the guard of
  line 39 does not read \<open>isTie\<close>.
\<close>

theorem tie_board_full:
  assumes "isTie (run es)"
  shows "length (board (run es)) = 9
         \<and> list_all (\<lambda>cell. cell \<noteq> []) (board (run es))
         \<and> (\<forall>idx. handleSquareClick (run es) idx = run es)"
proof -
  from assms consistent_run [of es]
  have "length (board (run es)) = 9" and full: "list_all (\<lambda>cell. cell \<noteq> []) (board (run es))"
    by (simp_all add: consistent_def)
  then show ?thesis by (simp add: full_board_rejects)
qed

theorem tie_board_full_witness:
  "isTie (run (before_tie @ [SquareClick 7]))
   \<and> board (run (before_tie @ [SquareClick 7]))
       = [''X'', ''O'', ''X'', ''X'', ''O'', ''X'', ''O'', ''X'', ''O'']
   \<and> handleSquareClick (run (before_tie @ [SquareClick 7])) 4 = run (before_tie @ [SquareClick 7])"
proof -
  have t: "isTie (run (before_tie @ [SquareClick 7]))"
    by (simp add: run_tie_run run_tie)
  have b: "board (run (before_tie @ [SquareClick 7]))
       = [''X'', ''O'', ''X'', ''X'', ''O'', ''X'', ''O'', ''X'', ''O'']"
    by (simp add: run_tie_run run_tie)
  from tie_board_full [OF t] t b show ?thesis by blast
qed

text \<open>
  C5. In every reachable state whose outcome is a win or a tie, a click on any index
  returns the state as it was.
\<close>

theorem terminal_noop:
  assumes "outcome_of (run es) \<noteq> InProgress"
  shows "handleSquareClick (run es) idx = run es"
proof (cases "truthy (winner (run es))")
  case True
  then show ?thesis by (simp add: handleSquareClick_def)
next
  case False
  with assms have "isTie (run es)" by (simp add: outcome_InProgress)
  with consistent_run [of es] have "list_all (\<lambda>cell. cell \<noteq> []) (board (run es))"
    by (simp add: consistent_def)
  then show ?thesis by (rule full_board_rejects)
qed

theorem terminal_noop_witness:
  "outcome_of (run (before_win @ [SquareClick 2])) = Win ''X'' [0, 1, 2]
   \<and> js_index (board (run (before_win @ [SquareClick 2]))) 5 = Some []
   \<and> handleSquareClick (run (before_win @ [SquareClick 2])) 5 = run (before_win @ [SquareClick 2])"
proof -
  have w: "outcome_of (run (before_win @ [SquareClick 2])) = Win ''X'' [0, 1, 2]"
    by (simp add: run_win_run outcome_run_win)
  then have "outcome_of (run (before_win @ [SquareClick 2])) \<noteq> InProgress" by simp
  from terminal_noop [OF this, of 5]
  have n: "handleSquareClick (run (before_win @ [SquareClick 2])) 5 = run (before_win @ [SquareClick 2])" .
  have "js_index (board (run (before_win @ [SquareClick 2]))) 5 = Some []"
    by (simp add: run_win_run run_win js_index_def)
  with w n show ?thesis by blast
qed

end
